theory Spec2Isabelle
  imports Main "HOL-Library.Word"
begin

unbundle bit_operations_syntax

section \<open>USB keyboard to serial: keycode translation and auto-repeat\<close>

text \<open>
  The repository holds two variants of the same firmware: \<^verbatim>\<open>main/keyboard_main.c\<close>
  and a second source file. Both share the translator \<^verbatim>\<open>usb_keycode_to_ascii\<close>
  character for character; they differ in where the repeat counter is reset. Definitions
  that exist once in each variant carry the suffix \<open>_main\<close> (for
  \<^verbatim>\<open>keyboard_main.c\<close>) or \<open>_alt\<close> (for the second file).
\<close>

type_synonym uint8 = "8 word"
type_synonym uint32 = "32 word"

subsection \<open>Configuration\<close>

definition KEYPRESS_INTERVAL_MS :: nat where
  "KEYPRESS_INTERVAL_MS = 500"

definition TIMER_INTERVAL_MS :: nat where
  "TIMER_INTERVAL_MS = 10"

definition TICK_COUNT_MAX :: uint32 where
  "TICK_COUNT_MAX = of_nat (KEYPRESS_INTERVAL_MS div TIMER_INTERVAL_MS)"

subsection \<open>The translator\<close>

text \<open>
  A C \<^verbatim>\<open>char\<close> is modelled as a byte; every value the translator returns is below
  128, so the signedness of \<^verbatim>\<open>char\<close> plays no part. The two lookup tables are the string
  literals of the source, index 0 standing for keycode 0x04; characters that have no
  printable form in a HOL string literal are written by their code.
\<close>

definition byte_of :: "char \<Rightarrow> uint8" where
  "byte_of c = of_char c"

definition lut_shift :: "uint8 list" where
  "lut_shift = map byte_of
     (''ABCDEFGHIJKLMNOPQRSTUVWXYZ!@#$%^&*()''
      @ [CHR 0x0A, CHR 0x1B, CHR 0x08, CHR 0x09]
      @ '' _+{}| :'' @ [CHR 0x22] @ ''~<>?'')"

definition lut_plain :: "uint8 list" where
  "lut_plain = map byte_of
     (''abcdefghijklmnopqrstuvwxyz1234567890''
      @ [CHR 0x0A, CHR 0x1B, CHR 0x08, CHR 0x09]
      @ '' -=[]'' @ [CHR 0x5C] @ '' ;'' @ [CHR 0x27] @ ''`,./'')"

text \<open>
  The two local flags of the translator: \<^verbatim>\<open>(modifier & 0x02) || (modifier & 0x20)\<close> and
  \<^verbatim>\<open>(modifier & 0x01) || (modifier & 0x10)\<close>.
\<close>

definition shift_held :: "uint8 \<Rightarrow> bool" where
  "shift_held modifier = (modifier AND 0x02 \<noteq> 0 \<or> modifier AND 0x20 \<noteq> 0)"

definition ctrl_held :: "uint8 \<Rightarrow> bool" where
  "ctrl_held modifier = (modifier AND 0x01 \<noteq> 0 \<or> modifier AND 0x10 \<noteq> 0)"

text \<open>
  \<^verbatim>\<open>char usb_keycode_to_ascii(uint8_t key_code, uint8_t modifier)\<close>. The value 0 is
  returned for a keycode outside the table; the callers send a byte only when the result
  is not 0.
\<close>

definition usb_keycode_to_ascii :: "uint8 \<Rightarrow> uint8 \<Rightarrow> uint8" where
  "usb_keycode_to_ascii key_code modifier =
     (if key_code < 0x04 \<or> key_code > 0x38 then 0
      else
        let shift = shift_held modifier;
            ctrl = ctrl_held modifier;
            idx = key_code - 0x04
        in if ctrl \<and> idx \<le> 25 then idx + 1
           else if shift then lut_shift ! unat idx else lut_plain ! unat idx)"

subsection \<open>Shared state\<close>

text \<open>
  The three file-level variables of both variants:
  \<^verbatim>\<open>static uint32_t tick_counter = 0; static uint8_t current_key = 0;
  static uint8_t current_mod = 0;\<close>
\<close>

record globals =
  tick_counter :: uint32
  current_key :: uint8
  current_mod :: uint8

text \<open>
  \<^verbatim>\<open>keyboard_main.c\<close> keeps one more variable alive between calls, the
  \<^verbatim>\<open>static uint8_t last_key = 0\<close> of the report callback. The second variant keeps
  \<^verbatim>\<open>uint8_t prev_key = 0\<close>, a local of the task that lives across the iterations of
  its loop.
\<close>

record state_main = globals +
  last_key :: uint8

record state_alt = globals +
  prev_key :: uint8

definition init_main :: state_main where
  "init_main = \<lparr>tick_counter = 0, current_key = 0, current_mod = 0, last_key = 0\<rparr>"

definition init_alt :: state_alt where
  "init_alt = \<lparr>tick_counter = 0, current_key = 0, current_mod = 0, prev_key = 0\<rparr>"

subsection \<open>The variant of \<^verbatim>\<open>keyboard_main.c\<close>\<close>

text \<open>
  One iteration of the \<^verbatim>\<open>while (1)\<close> loop of \<^verbatim>\<open>uart_repeat_send_task\<close>, up to its
  \<^verbatim>\<open>vTaskDelay\<close>: the byte handed to \<^verbatim>\<open>uart_write_bytes\<close>, if any, and the state
  the iteration leaves. The result of \<^verbatim>\<open>uart_write_bytes\<close> is not looked at by the
  source. The \<^verbatim>\<open>ESP_LOGI\<close> calls of both variants change no variable and are left out.
\<close>

definition uart_repeat_send_task_main :: "state_main \<Rightarrow> uint8 option \<times> state_main" where
  "uart_repeat_send_task_main s =
     (if current_key s \<noteq> 0 then
        let sent =
              (if tick_counter s = 0 then
                 let ascii_char = usb_keycode_to_ascii (current_key s) (current_mod s)
                 in if ascii_char \<noteq> 0 then Some ascii_char else None
               else None);
            s1 = s\<lparr>tick_counter := tick_counter s + 1\<rparr>;
            s2 = (if tick_counter s1 \<ge> TICK_COUNT_MAX then s1\<lparr>tick_counter := 0\<rparr> else s1)
        in (sent, s2)
      else (None, s))"

text \<open>
  \<^verbatim>\<open>hid_host_keyboard_report_callback(report, report_len, arg)\<close>: the list holds the
  \<^verbatim>\<open>report_len\<close> bytes of the report. The function returns \<^verbatim>\<open>void\<close>.
\<close>

definition hid_host_keyboard_report_callback_main :: "uint8 list \<Rightarrow> state_main \<Rightarrow> state_main" where
  "hid_host_keyboard_report_callback_main report s =
     (if length report < 3 then s
      else
        let s1 = s\<lparr>current_mod := report ! 0\<rparr>;
            s2 = s1\<lparr>current_key := report ! 2\<rparr>;
            s3 = (if last_key s2 \<noteq> current_key s2 then s2\<lparr>tick_counter := 0\<rparr> else s2)
        in s3\<lparr>last_key := current_key s3\<rparr>)"

subsection \<open>The second variant\<close>

text \<open>
  The head of the loop body: the globals are copied to locals and the counter is reset
  when the key differs from the one of the previous iteration.
\<close>

definition key_change_reset_alt :: "state_alt \<Rightarrow> state_alt" where
  "key_change_reset_alt s =
     (let local_key = current_key s
      in if local_key \<noteq> prev_key s then s\<lparr>tick_counter := 0\<rparr> else s)"

text \<open>One whole iteration of the loop of \<^verbatim>\<open>uart_repeat_send_task\<close>.\<close>

definition uart_repeat_send_task_alt :: "state_alt \<Rightarrow> uint8 option \<times> state_alt" where
  "uart_repeat_send_task_alt s =
     (let local_key = current_key s;
          local_mod = current_mod s;
          s1 = key_change_reset_alt s;
          (sent, s4) =
            (if local_key \<noteq> 0 then
               let sent =
                     (if tick_counter s1 = 0 then
                        let ascii_char = usb_keycode_to_ascii local_key local_mod
                        in if ascii_char \<noteq> 0 then Some ascii_char else None
                      else None);
                   s2 = s1\<lparr>tick_counter := tick_counter s1 + 1\<rparr>;
                   s3 = (if tick_counter s2 \<ge> TICK_COUNT_MAX then s2\<lparr>tick_counter := 0\<rparr> else s2)
               in (sent, s3)
             else (None, s1\<lparr>tick_counter := 0\<rparr>))
      in (sent, s4\<lparr>prev_key := local_key\<rparr>))"

definition hid_host_keyboard_report_callback_alt :: "uint8 list \<Rightarrow> state_alt \<Rightarrow> state_alt" where
  "hid_host_keyboard_report_callback_alt report s =
     (if length report < 3 then s
      else
        let s1 = s\<lparr>current_mod := report ! 0\<rparr>
        in s1\<lparr>current_key := report ! 2\<rparr>)"

subsection \<open>Runs\<close>

text \<open>
  A run is a sequence of events, each applied as a whole: the arrival of a report (a call
  of the callback) or one iteration of the task. The log of a run lists, for each
  iteration in order, the byte it wrote to the UART.
\<close>

datatype event = Report "uint8 list" | Tick

fun exec_main :: "state_main \<Rightarrow> event list \<Rightarrow> state_main" where
  "exec_main s [] = s"
| "exec_main s (Report r # es) = exec_main (hid_host_keyboard_report_callback_main r s) es"
| "exec_main s (Tick # es) = exec_main (snd (uart_repeat_send_task_main s)) es"

fun sent_main :: "state_main \<Rightarrow> event list \<Rightarrow> uint8 option list" where
  "sent_main s [] = []"
| "sent_main s (Report r # es) = sent_main (hid_host_keyboard_report_callback_main r s) es"
| "sent_main s (Tick # es) =
     fst (uart_repeat_send_task_main s) # sent_main (snd (uart_repeat_send_task_main s)) es"

fun exec_alt :: "state_alt \<Rightarrow> event list \<Rightarrow> state_alt" where
  "exec_alt s [] = s"
| "exec_alt s (Report r # es) = exec_alt (hid_host_keyboard_report_callback_alt r s) es"
| "exec_alt s (Tick # es) = exec_alt (snd (uart_repeat_send_task_alt s)) es"

fun sent_alt :: "state_alt \<Rightarrow> event list \<Rightarrow> uint8 option list" where
  "sent_alt s [] = []"
| "sent_alt s (Report r # es) = sent_alt (hid_host_keyboard_report_callback_alt r s) es"
| "sent_alt s (Tick # es) =
     fst (uart_repeat_send_task_alt s) # sent_alt (snd (uart_repeat_send_task_alt s)) es"

text \<open>
  The bytes of a log with the time of their iteration in milliseconds, the first
  iteration of the log being at time \<open>t\<close> and each \<^verbatim>\<open>vTaskDelay\<close> lasting
  \<open>TIMER_INTERVAL_MS\<close>.
\<close>

fun emissions :: "nat \<Rightarrow> uint8 option list \<Rightarrow> (nat \<times> uint8) list" where
  "emissions t [] = []"
| "emissions t (None # bs) = emissions (t + TIMER_INTERVAL_MS) bs"
| "emissions t (Some b # bs) = (t, b) # emissions (t + TIMER_INTERVAL_MS) bs"

text \<open>
  A run in which the held key changes value at most once between two consecutive
  iterations of the task: \<open>k\<close> is the key held now and \<open>changed\<close> tells whether it
  has changed since the last iteration. A report of fewer than 3 bytes changes nothing.
\<close>

fun one_change_per_tick :: "uint8 \<Rightarrow> bool \<Rightarrow> event list \<Rightarrow> bool" where
  "one_change_per_tick k changed [] = True"
| "one_change_per_tick k changed (Tick # es) = one_change_per_tick k False es"
| "one_change_per_tick k changed (Report r # es) =
     (if length r < 3 \<or> r ! 2 = k then one_change_per_tick k changed es
      else \<not> changed \<and> one_change_per_tick (r ! 2) True es)"

subsection \<open>Single loads and stores of the key state\<close>

text \<open>
  Neither variant guards the key state by a lock, a critical section or an atomic type.
  The callback writes it by two assignments in this order,
  \<^verbatim>\<open>current_mod = report[0]; current_key = report[2];\<close> (the same lines in both
  variants), and the task of the second variant reads it by two assignments in this
  order, \<^verbatim>\<open>local_key = current_key; local_mod = current_mod;\<close>. Each of the four is one
  access to one byte. The cells are the two variables and the two locals of the task.
\<close>

datatype access = StoreMod uint8 | StoreKey uint8 | LoadKey | LoadMod

record cells =
  key_cell :: uint8
  mod_cell :: uint8
  local_key :: uint8
  local_mod :: uint8

text \<open>What one access does to the cells.\<close>

fun access_step :: "access \<Rightarrow> cells \<Rightarrow> cells" where
  "access_step (StoreMod v) c = c\<lparr>mod_cell := v\<rparr>"
| "access_step (StoreKey v) c = c\<lparr>key_cell := v\<rparr>"
| "access_step LoadKey c = c\<lparr>local_key := key_cell c\<rparr>"
| "access_step LoadMod c = c\<lparr>local_mod := mod_cell c\<rparr>"

fun run_accesses :: "access list \<Rightarrow> cells \<Rightarrow> cells" where
  "run_accesses [] c = c"
| "run_accesses (x # xs) c = run_accesses xs (access_step x c)"


definition task_loads :: "access list" where
  "task_loads = [LoadKey, LoadMod]"

text \<open>
  All ways of running two sequences of accesses on one processor or two: every merge that
  keeps the order of each sequence.
\<close>

fun interleavings :: "'a list \<Rightarrow> 'a list \<Rightarrow> 'a list list" where
  "interleavings [] ys = [ys]"
| "interleavings (x # xs) [] = [x # xs]"
| "interleavings (x # xs) (y # ys) =
     map ((#) x) (interleavings xs (y # ys)) @ map ((#) y) (interleavings (x # xs) ys)"

section \<open>The translator\<close>

subsection \<open>The tables\<close>

lemma lut_plain_bytes:
  "lut_plain = [0x61, 0x62, 0x63, 0x64, 0x65, 0x66, 0x67, 0x68, 0x69, 0x6A, 0x6B, 0x6C, 0x6D,
     0x6E, 0x6F, 0x70, 0x71, 0x72, 0x73, 0x74, 0x75, 0x76, 0x77, 0x78, 0x79, 0x7A,
     0x31, 0x32, 0x33, 0x34, 0x35, 0x36, 0x37, 0x38, 0x39, 0x30, 0x0A, 0x1B, 0x08,
     0x09, 0x20, 0x2D, 0x3D, 0x5B, 0x5D, 0x5C, 0x20, 0x3B, 0x27, 0x60, 0x2C, 0x2E,
     0x2F]"
  by (simp add: lut_plain_def byte_of_def)

lemma lut_shift_bytes:
  "lut_shift = [0x41, 0x42, 0x43, 0x44, 0x45, 0x46, 0x47, 0x48, 0x49, 0x4A, 0x4B, 0x4C, 0x4D,
     0x4E, 0x4F, 0x50, 0x51, 0x52, 0x53, 0x54, 0x55, 0x56, 0x57, 0x58, 0x59, 0x5A,
     0x21, 0x40, 0x23, 0x24, 0x25, 0x5E, 0x26, 0x2A, 0x28, 0x29, 0x0A, 0x1B, 0x08,
     0x09, 0x20, 0x5F, 0x2B, 0x7B, 0x7D, 0x7C, 0x20, 0x3A, 0x22, 0x7E, 0x3C, 0x3E,
     0x3F]"
  by (simp add: lut_shift_def byte_of_def)

lemma length_lut_plain: "length lut_plain = 53"
  by (simp add: lut_plain_bytes)

lemma length_lut_shift: "length lut_shift = 53"
  by (simp add: lut_shift_bytes)

lemma lut_plain_nonzero: "0 \<notin> set lut_plain"
  by (simp add: lut_plain_bytes)

lemma lut_shift_nonzero: "0 \<notin> set lut_shift"
  by (simp add: lut_shift_bytes)

lemma lut_plain_letters: "n < 26 \<Longrightarrow> lut_plain ! n = 97 + of_nat n"
proof -
  have "\<forall>n \<in> set [0..<26]. lut_plain ! n = 97 + of_nat n"
    unfolding lut_plain_bytes by (simp add: upt_rec del: upt.simps)
  then show "n < 26 \<Longrightarrow> lut_plain ! n = 97 + of_nat n" by simp
qed

lemma lut_shift_letters: "n < 26 \<Longrightarrow> lut_shift ! n = 65 + of_nat n"
proof -
  have "\<forall>n \<in> set [0..<26]. lut_shift ! n = 65 + of_nat n"
    unfolding lut_shift_bytes by (simp add: upt_rec del: upt.simps)
  then show "n < 26 \<Longrightarrow> lut_shift ! n = 65 + of_nat n" by simp
qed

subsection \<open>The index\<close>

text \<open>Past the range check the index lies inside both tables: no read is out of range.\<close>

lemma idx_unat:
  fixes k :: uint8
  assumes "\<not> (k < 0x04 \<or> k > 0x38)"
  shows "unat (k - 0x04) = unat k - 4" and "unat (k - 0x04) < 53"
  using assms by (auto simp add: unat_sub word_le_nat_alt word_less_nat_alt not_less)

lemma letter_idx:
  fixes k :: uint8
  assumes "0x04 \<le> k" "k \<le> 0x1D"
  shows "unat (k - 0x04) < 26" and "k - 0x04 \<le> 25" and "\<not> (k < 0x04 \<or> k > 0x38)"
  using assms by (simp_all add: unat_sub word_le_nat_alt word_less_nat_alt not_less)

lemma succ_nonzero:
  fixes x :: uint8
  assumes "x \<le> 25"
  shows "x + 1 \<noteq> 0"
proof -
  from assms have "unat x \<le> 25" by (simp add: word_le_nat_alt)
  then have "unat (x + 1) = unat x + 1" by (simp add: unat_word_ariths)
  then show ?thesis by (metis Suc_eq_plus1 nat.distinct(1) unat_0)
qed

subsection \<open>Modifier flags\<close>

lemma ctrl_held_or_shift:
  "ctrl_held (m OR 0x02) = ctrl_held m" "ctrl_held (m OR 0x20) = ctrl_held m"
  by (simp_all add: ctrl_held_def word_ao_dist)

lemma flags_concrete:
  "\<not> ctrl_held 0" "\<not> shift_held 0" "\<not> ctrl_held 0x02" "shift_held 0x02"
  "\<not> ctrl_held 0x20" "shift_held 0x20"
  by (simp_all add: ctrl_held_def shift_held_def)

subsection \<open>Letters\<close>

lemma ctrl_letter:
  assumes "0x04 \<le> k" "k \<le> 0x1D" "ctrl_held m"
  shows "usb_keycode_to_ascii k m = (k - 0x04) + 1"
  using assms letter_idx [of k] by (simp add: usb_keycode_to_ascii_def)

lemma plain_letter:
  assumes "0x04 \<le> k" "k \<le> 0x1D" "\<not> ctrl_held m" "\<not> shift_held m"
  shows "usb_keycode_to_ascii k m = byte_of CHR ''a'' + (k - 0x04)"
  using assms letter_idx [of k] lut_plain_letters [of "unat (k - 0x04)"]
  by (simp add: usb_keycode_to_ascii_def byte_of_def)

lemma shift_letter:
  assumes "0x04 \<le> k" "k \<le> 0x1D" "\<not> ctrl_held m" "shift_held m"
  shows "usb_keycode_to_ascii k m = byte_of CHR ''A'' + (k - 0x04)"
  using assms letter_idx [of k] lut_shift_letters [of "unat (k - 0x04)"]
  by (simp add: usb_keycode_to_ascii_def byte_of_def)

subsection \<open>Digits, Enter, Esc, Backspace\<close>

lemma fixed_keys:
  "usb_keycode_to_ascii 0x1E 0 = byte_of CHR ''1''"
  "usb_keycode_to_ascii 0x27 0 = byte_of CHR ''0''"
  "usb_keycode_to_ascii 0x1E 0x02 = byte_of CHR ''!''"
  "usb_keycode_to_ascii 0x1E 0x20 = byte_of CHR ''!''"
  "usb_keycode_to_ascii 0x28 0 = 0x0A"
  "usb_keycode_to_ascii 0x29 0 = 0x1B"
  "usb_keycode_to_ascii 0x2A 0 = 0x08"
  by (simp_all add: usb_keycode_to_ascii_def flags_concrete lut_plain_bytes lut_shift_bytes
      byte_of_def)

subsection \<open>Keys without a byte\<close>

lemma unmapped_iff: "usb_keycode_to_ascii k m = 0 \<longleftrightarrow> k < 0x04 \<or> k > 0x38"
proof (cases "k < 0x04 \<or> k > 0x38")
  case True
  then show ?thesis by (simp add: usb_keycode_to_ascii_def)
next
  case False
  have p: "lut_plain ! unat (k - 0x04) \<noteq> 0"
    using idx_unat(2) [OF False] lut_plain_nonzero nth_mem [of "unat (k - 0x04)" lut_plain]
    by (metis length_lut_plain)
  have s: "lut_shift ! unat (k - 0x04) \<noteq> 0"
    using idx_unat(2) [OF False] lut_shift_nonzero nth_mem [of "unat (k - 0x04)" lut_shift]
    by (metis length_lut_shift)
  have c: "k - 0x04 \<le> 25 \<Longrightarrow> (k - 0x04) + 1 \<noteq> 0"
    by (rule succ_nonzero)
  from False p s c show ?thesis by (simp add: usb_keycode_to_ascii_def Let_def)
qed

section \<open>The scheduler\<close>

subsection \<open>One iteration and one report, field by field\<close>

lemma TICK_COUNT_MAX_50: "TICK_COUNT_MAX = 50"
  by (simp add: TICK_COUNT_MAX_def KEYPRESS_INTERVAL_MS_def TIMER_INTERVAL_MS_def)

lemma task_main_sent:
  "fst (uart_repeat_send_task_main s) =
     (if current_key s \<noteq> 0 \<and> tick_counter s = 0
         \<and> usb_keycode_to_ascii (current_key s) (current_mod s) \<noteq> 0
      then Some (usb_keycode_to_ascii (current_key s) (current_mod s)) else None)"
  by (simp add: uart_repeat_send_task_main_def Let_def)

lemma task_main_state:
  "snd (uart_repeat_send_task_main s) =
     (if current_key s \<noteq> 0
      then s\<lparr>tick_counter := (if TICK_COUNT_MAX \<le> tick_counter s + 1 then 0 else tick_counter s + 1)\<rparr>
      else s)"
  by (simp add: uart_repeat_send_task_main_def Let_def)

lemma task_alt_sent:
  "fst (uart_repeat_send_task_alt s) =
     (if current_key s \<noteq> 0 \<and> tick_counter (key_change_reset_alt s) = 0
         \<and> usb_keycode_to_ascii (current_key s) (current_mod s) \<noteq> 0
      then Some (usb_keycode_to_ascii (current_key s) (current_mod s)) else None)"
  by (simp add: uart_repeat_send_task_alt_def Let_def split: prod.splits)

lemma task_alt_state:
  "snd (uart_repeat_send_task_alt s) =
     (if current_key s \<noteq> 0
      then s\<lparr>tick_counter :=
               (if TICK_COUNT_MAX \<le> tick_counter (key_change_reset_alt s) + 1 then 0
                else tick_counter (key_change_reset_alt s) + 1),
             prev_key := current_key s\<rparr>
      else s\<lparr>tick_counter := 0, prev_key := current_key s\<rparr>)"
  by (simp add: uart_repeat_send_task_alt_def key_change_reset_alt_def Let_def split: prod.splits)

lemma reset_alt_counter:
  "tick_counter (key_change_reset_alt s) =
     (if current_key s \<noteq> prev_key s then 0 else tick_counter s)"
  by (simp add: key_change_reset_alt_def Let_def)

lemma callback_main_state:
  "hid_host_keyboard_report_callback_main r s =
     (if length r < 3 then s
      else s\<lparr>tick_counter := (if last_key s \<noteq> r ! 2 then 0 else tick_counter s),
             current_key := r ! 2, current_mod := r ! 0, last_key := r ! 2\<rparr>)"
  by (simp add: hid_host_keyboard_report_callback_main_def Let_def)

lemma callback_alt_state:
  "hid_host_keyboard_report_callback_alt r s =
     (if length r < 3 then s else s\<lparr>current_key := r ! 2, current_mod := r ! 0\<rparr>)"
  by (simp add: hid_host_keyboard_report_callback_alt_def Let_def)

lemma advance_mod:
  fixes tc :: uint32
  assumes "tc < TICK_COUNT_MAX"
  shows "unat (if TICK_COUNT_MAX \<le> tc + 1 then 0 else tc + 1) = (unat tc + 1) mod unat TICK_COUNT_MAX"
    and "(if TICK_COUNT_MAX \<le> tc + 1 then 0 else tc + 1) < TICK_COUNT_MAX"
proof -
  from assms have b: "unat tc < 50"
    by (simp add: TICK_COUNT_MAX_50 word_less_nat_alt)
  then have u: "unat (tc + 1) = unat tc + 1"
    by (simp add: unat_word_ariths)
  have le: "TICK_COUNT_MAX \<le> tc + 1 \<longleftrightarrow> unat tc = 49"
    using b u by (auto simp add: TICK_COUNT_MAX_50 word_le_nat_alt)
  show "unat (if TICK_COUNT_MAX \<le> tc + 1 then 0 else tc + 1) = (unat tc + 1) mod unat TICK_COUNT_MAX"
    using b u le by (auto simp add: TICK_COUNT_MAX_50)
  show "(if TICK_COUNT_MAX \<le> tc + 1 then 0 else tc + 1) < TICK_COUNT_MAX"
    by (simp add: TICK_COUNT_MAX_50 not_le)
qed

lemma advance_bound:
  fixes tc :: uint32
  shows "(if TICK_COUNT_MAX \<le> tc + 1 then 0 else tc + 1) < TICK_COUNT_MAX"
  unfolding TICK_COUNT_MAX_50 by (simp add: not_le)

subsection \<open>Invariants of the runs\<close>

lemma inv_main_exec:
  assumes "last_key s = current_key s" and "tick_counter s < TICK_COUNT_MAX"
    and "current_key s = 0 \<longrightarrow> tick_counter s = 0"
  shows "last_key (exec_main s es) = current_key (exec_main s es)
    \<and> tick_counter (exec_main s es) < TICK_COUNT_MAX
    \<and> (current_key (exec_main s es) = 0 \<longrightarrow> tick_counter (exec_main s es) = 0)"
  using assms
proof (induction s es rule: exec_main.induct)
  case (1 s)
  then show ?case by simp
next
  case (2 s r es)
  have "TICK_COUNT_MAX \<noteq> 0" by (simp add: TICK_COUNT_MAX_50)
  then have z: "0 < TICK_COUNT_MAX" by (simp add: word_neq_0_conv)
  show ?case
    unfolding exec_main.simps
    by (rule "2.IH") (use "2.prems" z in \<open>auto simp add: callback_main_state\<close>)
next
  case (3 s es)
  show ?case
    unfolding exec_main.simps
    by (rule "3.IH") (use "3.prems" advance_bound in \<open>auto simp add: task_main_state\<close>)
qed

lemma reach_main:
  "last_key (exec_main init_main es) = current_key (exec_main init_main es)"
  "tick_counter (exec_main init_main es) < TICK_COUNT_MAX"
  "current_key (exec_main init_main es) = 0 \<longrightarrow> tick_counter (exec_main init_main es) = 0"
  using inv_main_exec [of init_main es]
  by (simp_all add: init_main_def TICK_COUNT_MAX_50)

lemma inv_alt_exec:
  assumes "tick_counter s < TICK_COUNT_MAX"
  shows "tick_counter (exec_alt s es) < TICK_COUNT_MAX"
  using assms
proof (induction s es rule: exec_alt.induct)
  case (1 s)
  then show ?case by simp
next
  case (2 s r es)
  show ?case
    unfolding exec_alt.simps
    by (rule "2.IH") (use "2.prems" in \<open>auto simp add: callback_alt_state\<close>)
next
  case (3 s es)
  have "TICK_COUNT_MAX \<noteq> 0" by (simp add: TICK_COUNT_MAX_50)
  then have z: "0 < TICK_COUNT_MAX" by (simp add: word_neq_0_conv)
  show ?case
    unfolding exec_alt.simps
    by (rule "3.IH") (use "3.prems" z advance_bound in \<open>auto simp add: task_alt_state\<close>)
qed

lemma reach_alt: "tick_counter (exec_alt init_alt es) < TICK_COUNT_MAX"
  using inv_alt_exec [of init_alt es] by (simp add: init_alt_def TICK_COUNT_MAX_50)

subsection \<open>A key held over many iterations\<close>

lemma small_counter:
  fixes i :: nat
  assumes "i < 50"
  shows "unat (of_nat i :: uint32) = i"
    and "(of_nat i :: uint32) = 0 \<longleftrightarrow> i = 0"
    and "TICK_COUNT_MAX \<le> (of_nat i :: uint32) + 1 \<longleftrightarrow> i = 49"
    and "(of_nat i :: uint32) + 1 = of_nat (Suc i)"
proof -
  show u: "unat (of_nat i :: uint32) = i"
    using assms by (simp add: unat_of_nat)
  show "(of_nat i :: uint32) = 0 \<longleftrightarrow> i = 0"
  proof
    assume "(of_nat i :: uint32) = 0"
    then have "unat (of_nat i :: uint32) = 0" by simp
    with u show "i = 0" by simp
  qed simp
  have s: "unat ((of_nat i :: uint32) + 1) = i + 1"
    using assms u by (simp add: unat_word_ariths)
  have "TICK_COUNT_MAX \<le> (of_nat i :: uint32) + 1 \<longleftrightarrow> 50 \<le> unat ((of_nat i :: uint32) + 1)"
    by (simp add: TICK_COUNT_MAX_50 word_le_nat_alt)
  with s assms show "TICK_COUNT_MAX \<le> (of_nat i :: uint32) + 1 \<longleftrightarrow> i = 49"
    by auto
  show "(of_nat i :: uint32) + 1 = of_nat (Suc i)"
    by simp
qed

lemma quiet_main:
  assumes "k \<noteq> 0" and "0 < i" and "i < 50" and "i + n \<le> 50"
  shows "sent_main \<lparr>tick_counter = of_nat i, current_key = k, current_mod = m, last_key = l\<rparr>
           (replicate n Tick @ es)
         = replicate n None
           @ sent_main \<lparr>tick_counter = of_nat ((i + n) mod 50), current_key = k,
                          current_mod = m, last_key = l\<rparr> es"
  using assms(2-4)
proof (induction n arbitrary: i)
  case 0
  then show ?case by simp
next
  case (Suc n)
  show ?case
  proof (cases "i = 49")
    case True
    with Suc.prems have "n = 0" by simp
    with True assms(1) show ?thesis
      by (simp add: task_main_sent task_main_state TICK_COUNT_MAX_50)
  next
    case False
    with Suc.prems have b: "0 < Suc i" "Suc i < 50" "Suc i + n \<le> 50" by simp_all
    have "sent_main \<lparr>tick_counter = of_nat i, current_key = k, current_mod = m, last_key = l\<rparr>
            (replicate (Suc n) Tick @ es)
          = None # sent_main \<lparr>tick_counter = of_nat (Suc i), current_key = k,
                                 current_mod = m, last_key = l\<rparr> (replicate n Tick @ es)"
      using assms(1) False Suc.prems small_counter [of i]
      by (simp add: task_main_sent task_main_state del: of_nat_Suc)
    also note Suc.IH [OF b]
    finally show ?thesis by simp
  qed
qed

lemma burst_main:
  assumes "k \<noteq> 0" and "n < 50"
  shows "sent_main \<lparr>tick_counter = 0, current_key = k, current_mod = m, last_key = l\<rparr>
           (replicate (Suc n) Tick @ es)
         = (if usb_keycode_to_ascii k m \<noteq> 0 then Some (usb_keycode_to_ascii k m) else None)
           # replicate n None
           @ sent_main \<lparr>tick_counter = of_nat (Suc n mod 50), current_key = k,
                          current_mod = m, last_key = l\<rparr> es"
proof (cases "n = 0")
  case True
  with assms(1) show ?thesis
    by (simp add: task_main_sent task_main_state TICK_COUNT_MAX_50 word_le_nat_alt)
next
  case False
  with assms(2) have b: "0 < (1::nat)" "(1::nat) < 50" "1 + n \<le> 50" by simp_all
  have "sent_main \<lparr>tick_counter = 0, current_key = k, current_mod = m, last_key = l\<rparr>
          (replicate (Suc n) Tick @ es)
        = (if usb_keycode_to_ascii k m \<noteq> 0 then Some (usb_keycode_to_ascii k m) else None)
          # sent_main \<lparr>tick_counter = of_nat 1, current_key = k, current_mod = m, last_key = l\<rparr>
              (replicate n Tick @ es)"
    using assms(1) by (simp add: task_main_sent task_main_state TICK_COUNT_MAX_50 word_le_nat_alt)
  also note quiet_main [OF assms(1) b]
  finally show ?thesis by simp
qed

lemma emissions_quiet:
  "emissions t (replicate n None @ bs) = emissions (t + n * TIMER_INTERVAL_MS) bs"
  by (induction n arbitrary: t) (simp_all add: algebra_simps)

lemma ticks_main:
  assumes "k \<noteq> 0" and "0 < n" and "n \<le> 50"
  shows "sent_main \<lparr>tick_counter = 0, current_key = k, current_mod = m, last_key = l\<rparr>
           (replicate n Tick @ es)
         = (if usb_keycode_to_ascii k m \<noteq> 0 then Some (usb_keycode_to_ascii k m) else None)
           # replicate (n - 1) None
           @ sent_main \<lparr>tick_counter = of_nat (n mod 50), current_key = k,
                          current_mod = m, last_key = l\<rparr> es"
proof -
  from assms(2,3) have n: "n = Suc (n - 1)" "n - 1 < 50" by simp_all
  from burst_main [OF assms(1) n(2), of m l es] n(1) show ?thesis by simp
qed

lemma ticks_main_end:
  assumes "k \<noteq> 0" and "0 < n" and "n \<le> 50"
  shows "sent_main \<lparr>tick_counter = 0, current_key = k, current_mod = m, last_key = l\<rparr>
           (replicate n Tick)
         = (if usb_keycode_to_ascii k m \<noteq> 0 then Some (usb_keycode_to_ascii k m) else None)
           # replicate (n - 1) None"
  using ticks_main [OF assms, of m l "[]"] by simp

lemma quiet_alt:
  assumes "k \<noteq> 0" and "0 < i" and "i < 50" and "i + n \<le> 50"
  shows "sent_alt \<lparr>tick_counter = of_nat i, current_key = k, current_mod = m, prev_key = k\<rparr>
           (replicate n Tick @ es)
         = replicate n None
           @ sent_alt \<lparr>tick_counter = of_nat ((i + n) mod 50), current_key = k,
                         current_mod = m, prev_key = k\<rparr> es"
  using assms(2-4)
proof (induction n arbitrary: i)
  case 0
  then show ?case by simp
next
  case (Suc n)
  show ?case
  proof (cases "i = 49")
    case True
    with Suc.prems have "n = 0" by simp
    with True assms(1) show ?thesis
      by (simp add: task_alt_sent task_alt_state reset_alt_counter TICK_COUNT_MAX_50)
  next
    case False
    with Suc.prems have b: "0 < Suc i" "Suc i < 50" "Suc i + n \<le> 50" by simp_all
    have "sent_alt \<lparr>tick_counter = of_nat i, current_key = k, current_mod = m, prev_key = k\<rparr>
            (replicate (Suc n) Tick @ es)
          = None # sent_alt \<lparr>tick_counter = of_nat (Suc i), current_key = k,
                                current_mod = m, prev_key = k\<rparr> (replicate n Tick @ es)"
      using assms(1) False Suc.prems small_counter [of i]
      by (simp add: task_alt_sent task_alt_state reset_alt_counter del: of_nat_Suc)
    also note Suc.IH [OF b]
    finally show ?thesis by simp
  qed
qed

lemma burst_alt:
  assumes "k \<noteq> 0" and "n < 50" and "c = 0 \<or> p \<noteq> k"
  shows "sent_alt \<lparr>tick_counter = c, current_key = k, current_mod = m, prev_key = p\<rparr>
           (replicate (Suc n) Tick @ es)
         = (if usb_keycode_to_ascii k m \<noteq> 0 then Some (usb_keycode_to_ascii k m) else None)
           # replicate n None
           @ sent_alt \<lparr>tick_counter = of_nat (Suc n mod 50), current_key = k,
                         current_mod = m, prev_key = k\<rparr> es"
proof -
  have first: "sent_alt \<lparr>tick_counter = c, current_key = k, current_mod = m, prev_key = p\<rparr>
          (replicate (Suc n) Tick @ es)
        = (if usb_keycode_to_ascii k m \<noteq> 0 then Some (usb_keycode_to_ascii k m) else None)
          # sent_alt \<lparr>tick_counter = of_nat 1, current_key = k, current_mod = m, prev_key = k\<rparr>
              (replicate n Tick @ es)"
    using assms(1,3)
    by (auto simp add: task_alt_sent task_alt_state reset_alt_counter TICK_COUNT_MAX_50
        word_le_nat_alt)
  show ?thesis
  proof (cases "n = 0")
    case True
    with first show ?thesis by simp
  next
    case False
    with assms(2) have b: "0 < (1::nat)" "(1::nat) < 50" "1 + n \<le> 50" by simp_all
    note first
    also note quiet_alt [OF assms(1) b]
    finally show ?thesis by simp
  qed
qed

lemma ticks_alt:
  assumes "k \<noteq> 0" and "0 < n" and "n \<le> 50" and "c = 0 \<or> p \<noteq> k"
  shows "sent_alt \<lparr>tick_counter = c, current_key = k, current_mod = m, prev_key = p\<rparr>
           (replicate n Tick @ es)
         = (if usb_keycode_to_ascii k m \<noteq> 0 then Some (usb_keycode_to_ascii k m) else None)
           # replicate (n - 1) None
           @ sent_alt \<lparr>tick_counter = of_nat (n mod 50), current_key = k,
                         current_mod = m, prev_key = k\<rparr> es"
proof -
  from assms(2,3) have n: "n = Suc (n - 1)" "n - 1 < 50" by simp_all
  from burst_alt [OF assms(1) n(2) assms(4), of m es] n(1) show ?thesis by simp
qed

lemma ticks_alt_end:
  assumes "k \<noteq> 0" and "0 < n" and "n \<le> 50" and "c = 0 \<or> p \<noteq> k"
  shows "sent_alt \<lparr>tick_counter = c, current_key = k, current_mod = m, prev_key = p\<rparr>
           (replicate n Tick)
         = (if usb_keycode_to_ascii k m \<noteq> 0 then Some (usb_keycode_to_ascii k m) else None)
           # replicate (n - 1) None"
  using ticks_alt [OF assms, of m "[]"] by simp

lemma ticks_200: "replicate 200 Tick
  = replicate 50 Tick @ replicate 50 Tick @ replicate 50 Tick @ replicate 50 Tick"
  by (simp add: replicate_add [symmetric])

lemma ticks_80: "replicate 80 Tick = replicate 50 Tick @ replicate 30 Tick"
  by (simp add: replicate_add [symmetric])

lemma letters_ab:
  "usb_keycode_to_ascii 0x04 0 = byte_of CHR ''a''" "usb_keycode_to_ascii 0x05 0 = byte_of CHR ''b''"
  "byte_of CHR ''a'' \<noteq> 0" "byte_of CHR ''b'' \<noteq> 0"
  using plain_letter [of "0x04" 0] plain_letter [of "0x05" 0]
  by (simp_all add: flags_concrete byte_of_def)

lemma scenario_hold_main:
  "emissions 0 (sent_main init_main (Report [0, 0, 0x04, 0, 0, 0, 0, 0] # replicate 200 Tick))
     = [(0, byte_of CHR ''a''), (500, byte_of CHR ''a''), (1000, byte_of CHR ''a''),
        (1500, byte_of CHR ''a'')]"
  unfolding ticks_200
  by (simp add: init_main_def callback_main_state ticks_main ticks_main_end letters_ab
      emissions_quiet emissions_quiet [of _ _ "[]", simplified] TIMER_INTERVAL_MS_def)

lemma scenario_hold_alt:
  "emissions 0 (sent_alt init_alt (Report [0, 0, 0x04, 0, 0, 0, 0, 0] # replicate 200 Tick))
     = [(0, byte_of CHR ''a''), (500, byte_of CHR ''a''), (1000, byte_of CHR ''a''),
        (1500, byte_of CHR ''a'')]"
  unfolding ticks_200
  by (simp add: init_alt_def callback_alt_state ticks_alt ticks_alt_end letters_ab
      emissions_quiet emissions_quiet [of _ _ "[]", simplified] TIMER_INTERVAL_MS_def)

lemma scenario_change_main:
  "emissions 0 (sent_main init_main
      (Report [0, 0, 0x04, 0, 0, 0, 0, 0] # replicate 20 Tick
       @ Report [0, 0, 0x05, 0, 0, 0, 0, 0] # replicate 80 Tick))
     = [(0, byte_of CHR ''a''), (200, byte_of CHR ''b''), (700, byte_of CHR ''b'')]"
  unfolding ticks_80
  by (simp add: init_main_def callback_main_state ticks_main ticks_main_end letters_ab
      emissions_quiet emissions_quiet [of _ _ "[]", simplified] TIMER_INTERVAL_MS_def)

lemma scenario_change_alt:
  "emissions 0 (sent_alt init_alt
      (Report [0, 0, 0x04, 0, 0, 0, 0, 0] # replicate 20 Tick
       @ Report [0, 0, 0x05, 0, 0, 0, 0, 0] # replicate 80 Tick))
     = [(0, byte_of CHR ''a''), (200, byte_of CHR ''b''), (700, byte_of CHR ''b'')]"
  unfolding ticks_80
  by (simp add: init_alt_def callback_alt_state ticks_alt ticks_alt_end letters_ab
      emissions_quiet emissions_quiet [of _ _ "[]", simplified] TIMER_INTERVAL_MS_def)

subsection \<open>The two variants side by side\<close>

lemma simulation:
  assumes "current_key s = current_key a" and "current_mod s = current_mod a"
    and "last_key s = current_key s"
    and "changed \<longleftrightarrow> prev_key a \<noteq> current_key a"
    and "tick_counter s = (if changed then 0 else tick_counter a)"
    and "current_key s = 0 \<longrightarrow> tick_counter s = 0"
    and "one_change_per_tick (current_key s) changed es"
  shows "sent_main s es = sent_alt a es"
  using assms
proof (induction es arbitrary: s a changed)
  case Nil
  then show ?case by simp
next
  case (Cons e es)
  show ?case
  proof (cases e)
    case Tick
    let ?s = "snd (uart_repeat_send_task_main s)" and ?a = "snd (uart_repeat_send_task_alt a)"
    have f: "fst (uart_repeat_send_task_main s) = fst (uart_repeat_send_task_alt a)"
      using Cons.prems by (auto simp add: task_main_sent task_alt_sent reset_alt_counter)
    have "sent_main ?s es = sent_alt ?a es"
    proof (rule Cons.IH [where changed = False])
      show "current_key ?s = current_key ?a" "current_mod ?s = current_mod ?a"
        "last_key ?s = current_key ?s" "False \<longleftrightarrow> prev_key ?a \<noteq> current_key ?a"
        using Cons.prems by (simp_all add: task_main_state task_alt_state)
      show "tick_counter ?s = (if False then 0 else tick_counter ?a)"
        using Cons.prems by (auto simp add: task_main_state task_alt_state reset_alt_counter)
      show "current_key ?s = 0 \<longrightarrow> tick_counter ?s = 0"
        using Cons.prems by (simp add: task_main_state)
      have "current_key ?s = current_key s"
        by (simp add: task_main_state)
      then show "one_change_per_tick (current_key ?s) False es"
        using Cons.prems(7) Tick by simp
    qed
    with f Tick show ?thesis by simp
  next
    case (Report r)
    let ?s = "hid_host_keyboard_report_callback_main r s"
      and ?a = "hid_host_keyboard_report_callback_alt r a"
    let ?c = "if length r < 3 \<or> r ! 2 = current_key s then changed else True"
    have "sent_main ?s es = sent_alt ?a es"
    proof (rule Cons.IH [where changed = ?c])
      show "current_key ?s = current_key ?a" "current_mod ?s = current_mod ?a"
        "last_key ?s = current_key ?s"
        using Cons.prems by (simp_all add: callback_main_state callback_alt_state)
      show "?c \<longleftrightarrow> prev_key ?a \<noteq> current_key ?a"
        using Cons.prems Report by (auto simp add: callback_alt_state)
      show "tick_counter ?s = (if ?c then 0 else tick_counter ?a)"
        using Cons.prems Report by (auto simp add: callback_main_state callback_alt_state)
      show "current_key ?s = 0 \<longrightarrow> tick_counter ?s = 0"
        using Cons.prems by (auto simp add: callback_main_state)
      show "one_change_per_tick (current_key ?s) ?c es"
        using Cons.prems Report by (auto simp add: callback_main_state)
    qed
    with Report show ?thesis by simp
  qed
qed

text \<open>
  Without the bound on the changes the two variants differ: a key that changes and changes
  back between two iterations restarts the phase in \<^verbatim>\<open>keyboard_main.c\<close> and goes
  unnoticed in the second variant.
\<close>

lemma double_change_diverges:
  "\<not> one_change_per_tick 0 False
      [Report [0, 0, 0x04], Tick, Report [0, 0, 0x05], Report [0, 0, 0x04], Tick]
   \<and> sent_main init_main
      [Report [0, 0, 0x04], Tick, Report [0, 0, 0x05], Report [0, 0, 0x04], Tick]
     = [Some (byte_of CHR ''a''), Some (byte_of CHR ''a'')]
   \<and> sent_alt init_alt
      [Report [0, 0, 0x04], Tick, Report [0, 0, 0x05], Report [0, 0, 0x04], Tick]
     = [Some (byte_of CHR ''a''), None]"
  by (simp add: init_main_def init_alt_def callback_main_state callback_alt_state
      task_main_state task_main_sent task_alt_state task_alt_sent reset_alt_counter
      TICK_COUNT_MAX_50 word_le_nat_alt letters_ab)

section \<open>Loads and stores of the key state\<close>

text \<open>The merges are the shuffles of the list library.\<close>

lemma interleavings_shuffles: "set (interleavings xs ys) = shuffles xs ys"
  by (induction xs ys rule: interleavings.induct) (auto simp add: shuffles.simps)



lemma loads_read_cells:
  "local_key (run_accesses task_loads c) = key_cell c"
  "local_mod (run_accesses task_loads c) = mod_cell c"
  by (simp_all add: task_loads_def)





section \<open>Claims about the translator\<close>

text \<open>
  C3. For every keycode from 0x04 to 0x1D and every modifier byte in which a Ctrl bit
  (left 0x01 or right 0x10) is set, the translator returns the letter's position plus one,
  \<open>(keycode - 0x04) + 1\<close>, from 0x01 for Ctrl+A to 0x1A for Ctrl+Z. The modifier byte is
  arbitrary otherwise, so the result is the same with a Shift bit set, and setting a
  Shift bit in the byte does not change the result: the Ctrl rule comes before the table
  lookup that Shift selects.
\<close>

theorem ctrl_precedence:
  assumes "0x04 \<le> k" and "k \<le> 0x1D" and "m AND 0x01 \<noteq> 0 \<or> m AND 0x10 \<noteq> 0"
  shows "usb_keycode_to_ascii k m = (k - 0x04) + 1
    \<and> usb_keycode_to_ascii k (m OR 0x02) = usb_keycode_to_ascii k m
    \<and> usb_keycode_to_ascii k (m OR 0x20) = usb_keycode_to_ascii k m
    \<and> 0x01 \<le> usb_keycode_to_ascii k m \<and> usb_keycode_to_ascii k m \<le> 0x1A"
proof -
  from assms(3) have c: "ctrl_held m" by (simp add: ctrl_held_def)
  have r: "usb_keycode_to_ascii k m' = (k - 0x04) + 1" if "ctrl_held m'" for m'
    using assms(1,2) that by (rule ctrl_letter)
  have lo: "0x01 \<le> (k - 0x04) + 1" and hi: "(k - 0x04) + 1 \<le> 0x1A"
    using assms(1,2)
    by (simp_all add: word_le_nat_alt unat_sub unat_word_ariths)
  from c r lo hi show ?thesis by (simp add: ctrl_held_or_shift)
qed

theorem ctrl_precedence_witness:
  "(0x04 :: uint8) \<le> 0x1D \<and> (0x1D :: uint8) \<le> 0x1D \<and> (0x13 :: uint8) AND 0x10 \<noteq> 0
   \<and> usb_keycode_to_ascii 0x1D 0x13 = 0x1A
   \<and> usb_keycode_to_ascii 0x1D (0x13 OR 0x20) = 0x1A"
  using ctrl_precedence [of "0x1D" "0x13"] by simp

text \<open>
  C4. Without Ctrl the translator agrees with the two tables. For every keycode from 0x04
  to 0x1D it returns \<open>'a' + (keycode - 0x04)\<close> under modifier 0 and
  \<open>'A' + (keycode - 0x04)\<close> under Shift (left 0x02 or right 0x20); more generally,
  under any modifier byte with no Ctrl bit, the Shift bits alone choose between the two.
  On the digit row, 0x1E gives \<open>'1'\<close>, 0x27 gives \<open>'0'\<close> and 0x1E with Shift gives
  \<open>'!'\<close>; 0x28 gives line feed, 0x29 gives Esc (0x1B) and 0x2A gives backspace.
\<close>

theorem tables_without_ctrl:
  assumes "0x04 \<le> k" and "k \<le> 0x1D"
  shows "usb_keycode_to_ascii k 0 = byte_of CHR ''a'' + (k - 0x04)
    \<and> usb_keycode_to_ascii k 0x02 = byte_of CHR ''A'' + (k - 0x04)
    \<and> usb_keycode_to_ascii k 0x20 = byte_of CHR ''A'' + (k - 0x04)
    \<and> (\<not> ctrl_held m \<longrightarrow>
         usb_keycode_to_ascii k m
           = (if shift_held m then byte_of CHR ''A'' else byte_of CHR ''a'') + (k - 0x04))
    \<and> usb_keycode_to_ascii 0x1E 0 = byte_of CHR ''1''
    \<and> usb_keycode_to_ascii 0x27 0 = byte_of CHR ''0''
    \<and> usb_keycode_to_ascii 0x1E 0x02 = byte_of CHR ''!''
    \<and> usb_keycode_to_ascii 0x1E 0x20 = byte_of CHR ''!''
    \<and> usb_keycode_to_ascii 0x28 0 = 0x0A
    \<and> usb_keycode_to_ascii 0x29 0 = 0x1B
    \<and> usb_keycode_to_ascii 0x2A 0 = 0x08"
proof -
  have a: "usb_keycode_to_ascii k m' = byte_of CHR ''a'' + (k - 0x04)"
    if "\<not> ctrl_held m'" "\<not> shift_held m'" for m'
    using assms that by (rule plain_letter)
  have b: "usb_keycode_to_ascii k m' = byte_of CHR ''A'' + (k - 0x04)"
    if "\<not> ctrl_held m'" "shift_held m'" for m'
    using assms that by (rule shift_letter)
  have g: "\<not> ctrl_held m \<longrightarrow>
      usb_keycode_to_ascii k m
        = (if shift_held m then byte_of CHR ''A'' else byte_of CHR ''a'') + (k - 0x04)"
    using a [of m] b [of m] by simp
  from a [of 0] b [of "0x02"] b [of "0x20"] g show ?thesis
    by (simp add: flags_concrete fixed_keys)
qed

theorem tables_without_ctrl_witness:
  "(0x04 :: uint8) \<le> 0x1D \<and> (0x1D :: uint8) \<le> 0x1D
   \<and> usb_keycode_to_ascii 0x1D 0 = byte_of CHR ''z''
   \<and> usb_keycode_to_ascii 0x1D 0x02 = byte_of CHR ''Z''
   \<and> \<not> ctrl_held 0x24 \<and> usb_keycode_to_ascii 0x1D 0x24 = byte_of CHR ''Z''"
  using tables_without_ctrl [of "0x1D" "0x24"]
  by (simp add: byte_of_def ctrl_held_def shift_held_def)

text \<open>
  C5, as the source has it. The translator returns 0, which its callers take as "no
  byte", exactly when the keycode is outside the range from 0x04 to 0x38; so it does for
  0x03 and 0x39. Inside the range every keycode has a byte, under every modifier: at the
  slot of keycode 0x32, between backslash (0x31) and semicolon (0x33), both tables hold a
  space, and that space is what the translator returns.
\<close>

theorem unmapped_exactly_outside_range:
  "(usb_keycode_to_ascii k m = 0 \<longleftrightarrow> k < 0x04 \<or> k > 0x38)
   \<and> usb_keycode_to_ascii 0x03 0 = 0
   \<and> usb_keycode_to_ascii 0x39 0 = 0
   \<and> usb_keycode_to_ascii 0x32 0 = byte_of CHR '' ''
   \<and> usb_keycode_to_ascii 0x32 0x02 = byte_of CHR '' ''"
proof -
  have "usb_keycode_to_ascii 0x32 0 = byte_of CHR '' ''"
    and "usb_keycode_to_ascii 0x32 0x02 = byte_of CHR '' ''"
    by (simp_all add: usb_keycode_to_ascii_def flags_concrete lut_plain_bytes lut_shift_bytes
        byte_of_def)
  moreover have "usb_keycode_to_ascii 0x03 0 = 0" and "usb_keycode_to_ascii 0x39 0 = 0"
    by (simp_all add: usb_keycode_to_ascii_def)
  ultimately show ?thesis using unmapped_iff [of k m] by simp
qed

theorem unmapped_exactly_outside_range_witness:
  "usb_keycode_to_ascii 0x38 0x40 \<noteq> 0 \<and> usb_keycode_to_ascii 0x39 0x40 = 0"
  using unmapped_exactly_outside_range [of "0x38" "0x40"]
    unmapped_exactly_outside_range [of "0x39" "0x40"]
  by simp

text \<open>
  The claim as it was stated counts keycode 0x32 among the keys without a byte. The
  translator returns a space for it, and a space is not 0.
\<close>

theorem table_gap_counterexample:
  "usb_keycode_to_ascii 0x32 0 = 0x20 \<and> usb_keycode_to_ascii 0x32 0 \<noteq> 0"
  by (simp add: usb_keycode_to_ascii_def flags_concrete lut_plain_bytes)

section \<open>Claims about the scheduler and the report callback\<close>

text \<open>
  C1. In every iteration of the task a byte is written to the UART if and only if the held
  key is not 0, the repeat counter is 0 where the task tests it, and the translator
  returns a byte for the held key and modifiers; the byte written is the translator's
  result. \<^verbatim>\<open>keyboard_main.c\<close> tests the counter as the iteration finds it; the second
  variant tests it after the reset at the head of the iteration. When one report with
  keycode 0x04 and no modifiers has arrived and nothing changes, the 200 iterations of
  the next 2000 ms write exactly four bytes, each \<open>'a'\<close>, at 0, 500, 1000 and 1500 ms. When
  a key is held for which the translator returns no byte, nothing is written and the
  counter still advances by one modulo \<open>TICK_COUNT_MAX\<close>.
\<close>

theorem emission_rule:
  "(fst (uart_repeat_send_task_main s) = Some b \<longleftrightarrow>
      current_key s \<noteq> 0 \<and> tick_counter s = 0
      \<and> usb_keycode_to_ascii (current_key s) (current_mod s) \<noteq> 0
      \<and> b = usb_keycode_to_ascii (current_key s) (current_mod s))
   \<and> (fst (uart_repeat_send_task_alt a) = Some b \<longleftrightarrow>
      current_key a \<noteq> 0 \<and> tick_counter (key_change_reset_alt a) = 0
      \<and> usb_keycode_to_ascii (current_key a) (current_mod a) \<noteq> 0
      \<and> b = usb_keycode_to_ascii (current_key a) (current_mod a))
   \<and> emissions 0 (sent_main init_main (Report [0, 0, 0x04, 0, 0, 0, 0, 0] # replicate 200 Tick))
       = [(0, byte_of CHR ''a''), (500, byte_of CHR ''a''), (1000, byte_of CHR ''a''),
          (1500, byte_of CHR ''a'')]
   \<and> emissions 0 (sent_alt init_alt (Report [0, 0, 0x04, 0, 0, 0, 0, 0] # replicate 200 Tick))
       = [(0, byte_of CHR ''a''), (500, byte_of CHR ''a''), (1000, byte_of CHR ''a''),
          (1500, byte_of CHR ''a'')]
   \<and> (current_key s \<noteq> 0 \<and> usb_keycode_to_ascii (current_key s) (current_mod s) = 0
        \<and> tick_counter s < TICK_COUNT_MAX \<longrightarrow>
        fst (uart_repeat_send_task_main s) = None
        \<and> unat (tick_counter (snd (uart_repeat_send_task_main s)))
            = (unat (tick_counter s) + 1) mod unat TICK_COUNT_MAX)
   \<and> (current_key a \<noteq> 0 \<and> usb_keycode_to_ascii (current_key a) (current_mod a) = 0
        \<and> tick_counter a < TICK_COUNT_MAX \<longrightarrow>
        fst (uart_repeat_send_task_alt a) = None
        \<and> unat (tick_counter (snd (uart_repeat_send_task_alt a)))
            = (unat (tick_counter (key_change_reset_alt a)) + 1) mod unat TICK_COUNT_MAX)"
proof -
  have m: "fst (uart_repeat_send_task_main s) = Some b \<longleftrightarrow>
      current_key s \<noteq> 0 \<and> tick_counter s = 0
      \<and> usb_keycode_to_ascii (current_key s) (current_mod s) \<noteq> 0
      \<and> b = usb_keycode_to_ascii (current_key s) (current_mod s)"
    by (auto simp add: task_main_sent)
  have l: "fst (uart_repeat_send_task_alt a) = Some b \<longleftrightarrow>
      current_key a \<noteq> 0 \<and> tick_counter (key_change_reset_alt a) = 0
      \<and> usb_keycode_to_ascii (current_key a) (current_mod a) \<noteq> 0
      \<and> b = usb_keycode_to_ascii (current_key a) (current_mod a)"
    by (auto simp add: task_alt_sent)
  have um: "fst (uart_repeat_send_task_main s) = None
        \<and> unat (tick_counter (snd (uart_repeat_send_task_main s)))
            = (unat (tick_counter s) + 1) mod unat TICK_COUNT_MAX"
    if "current_key s \<noteq> 0" "usb_keycode_to_ascii (current_key s) (current_mod s) = 0"
      "tick_counter s < TICK_COUNT_MAX"
    using that advance_mod(1) [of "tick_counter s"]
    by (simp add: task_main_sent task_main_state)
  have ul: "fst (uart_repeat_send_task_alt a) = None
        \<and> unat (tick_counter (snd (uart_repeat_send_task_alt a)))
            = (unat (tick_counter (key_change_reset_alt a)) + 1) mod unat TICK_COUNT_MAX"
    if "current_key a \<noteq> 0" "usb_keycode_to_ascii (current_key a) (current_mod a) = 0"
      "tick_counter a < TICK_COUNT_MAX"
  proof -
    from that(3) have "tick_counter (key_change_reset_alt a) < TICK_COUNT_MAX"
      by (simp add: reset_alt_counter TICK_COUNT_MAX_50)
    from advance_mod(1) [OF this] that(1,2) show ?thesis
      by (simp add: task_alt_sent task_alt_state)
  qed
  from m l um ul scenario_hold_main scenario_hold_alt show ?thesis by blast
qed

theorem emission_rule_witness:
  "current_key \<lparr>tick_counter = 7, current_key = 0x39, current_mod = 0, last_key = 0x39\<rparr> \<noteq> 0
   \<and> usb_keycode_to_ascii 0x39 0 = 0 \<and> (7 :: uint32) < TICK_COUNT_MAX
   \<and> fst (uart_repeat_send_task_main
        \<lparr>tick_counter = 7, current_key = 0x39, current_mod = 0, last_key = 0x39\<rparr>) = None
   \<and> unat (tick_counter (snd (uart_repeat_send_task_main
        \<lparr>tick_counter = 7, current_key = 0x39, current_mod = 0, last_key = 0x39\<rparr>))) = 8
   \<and> fst (uart_repeat_send_task_alt
        \<lparr>tick_counter = 7, current_key = 0x39, current_mod = 0, prev_key = 0x04\<rparr>) = None
   \<and> unat (tick_counter (snd (uart_repeat_send_task_alt
        \<lparr>tick_counter = 7, current_key = 0x39, current_mod = 0, prev_key = 0x04\<rparr>))) = 1"
proof -
  have h: "usb_keycode_to_ascii 0x39 0 = 0" "(7 :: uint32) < TICK_COUNT_MAX"
    by (simp_all add: unmapped_iff TICK_COUNT_MAX_50)
  from h emission_rule
    [of "\<lparr>tick_counter = 7, current_key = 0x39, current_mod = 0, last_key = 0x39\<rparr>" 0
        "\<lparr>tick_counter = 7, current_key = 0x39, current_mod = 0, prev_key = 0x04\<rparr>"]
  show ?thesis
    by (simp add: reset_alt_counter TICK_COUNT_MAX_50)
qed

text \<open>
  C2, as the source has it. In \<^verbatim>\<open>keyboard_main.c\<close>, whenever a report changes the held
  key to a new value that is not 0, also from another such key, the callback resets the
  repeat counter to 0 and the byte of the new key is written in the very next iteration
  of the task; this holds in every state a run can reach. In the second variant the
  callback never touches the counter; the task resets it at the head of an iteration
  exactly when the key it reads differs from \<open>prev_key\<close>, the key read by the iteration
  before. So there the byte of a new key that is not 0 is written in the very next
  iteration whenever that key differs from \<open>prev_key\<close>, which it does when the report is
  the first to change the key since the last iteration. With key 0x04 reported at 0 ms
  and key 0x05 reported just before the iteration at 200 ms, the bytes written in the
  first second are \<open>'a'\<close> at 0 ms, \<open>'b'\<close> at 200 ms and \<open>'b'\<close> at 700 ms in both
  variants: nothing is written at 500 ms.
\<close>

theorem key_change_restarts_phase:
  "(3 \<le> length r \<and> r ! 2 \<noteq> 0 \<and> r ! 2 \<noteq> current_key (exec_main init_main es) \<longrightarrow>
      tick_counter (hid_host_keyboard_report_callback_main r (exec_main init_main es)) = 0
      \<and> fst (uart_repeat_send_task_main
               (hid_host_keyboard_report_callback_main r (exec_main init_main es)))
          = (if usb_keycode_to_ascii (r ! 2) (r ! 0) \<noteq> 0
             then Some (usb_keycode_to_ascii (r ! 2) (r ! 0)) else None))
   \<and> prev_key (snd (uart_repeat_send_task_alt a)) = current_key a
   \<and> tick_counter (hid_host_keyboard_report_callback_alt r a) = tick_counter a
   \<and> tick_counter (key_change_reset_alt a)
       = (if current_key a \<noteq> prev_key a then 0 else tick_counter a)
   \<and> (3 \<le> length r \<and> r ! 2 \<noteq> 0 \<and> r ! 2 \<noteq> prev_key a \<longrightarrow>
      tick_counter (key_change_reset_alt (hid_host_keyboard_report_callback_alt r a)) = 0
      \<and> fst (uart_repeat_send_task_alt (hid_host_keyboard_report_callback_alt r a))
          = (if usb_keycode_to_ascii (r ! 2) (r ! 0) \<noteq> 0
             then Some (usb_keycode_to_ascii (r ! 2) (r ! 0)) else None))
   \<and> (3 \<le> length r \<and> r ! 2 \<noteq> 0
        \<and> r ! 2 \<noteq> current_key (snd (uart_repeat_send_task_alt a)) \<longrightarrow>
      tick_counter (key_change_reset_alt
        (hid_host_keyboard_report_callback_alt r (snd (uart_repeat_send_task_alt a)))) = 0
      \<and> fst (uart_repeat_send_task_alt
        (hid_host_keyboard_report_callback_alt r (snd (uart_repeat_send_task_alt a))))
          = (if usb_keycode_to_ascii (r ! 2) (r ! 0) \<noteq> 0
             then Some (usb_keycode_to_ascii (r ! 2) (r ! 0)) else None))
   \<and> emissions 0 (sent_main init_main
        (Report [0, 0, 0x04, 0, 0, 0, 0, 0] # replicate 20 Tick
         @ Report [0, 0, 0x05, 0, 0, 0, 0, 0] # replicate 80 Tick))
       = [(0, byte_of CHR ''a''), (200, byte_of CHR ''b''), (700, byte_of CHR ''b'')]
   \<and> emissions 0 (sent_alt init_alt
        (Report [0, 0, 0x04, 0, 0, 0, 0, 0] # replicate 20 Tick
         @ Report [0, 0, 0x05, 0, 0, 0, 0, 0] # replicate 80 Tick))
       = [(0, byte_of CHR ''a''), (200, byte_of CHR ''b''), (700, byte_of CHR ''b'')]"
proof -
  let ?s = "exec_main init_main es"
  have m: "tick_counter (hid_host_keyboard_report_callback_main r ?s) = 0
      \<and> fst (uart_repeat_send_task_main (hid_host_keyboard_report_callback_main r ?s))
          = (if usb_keycode_to_ascii (r ! 2) (r ! 0) \<noteq> 0
             then Some (usb_keycode_to_ascii (r ! 2) (r ! 0)) else None)"
    if "3 \<le> length r" "r ! 2 \<noteq> 0" "r ! 2 \<noteq> current_key ?s"
    using that reach_main(1) [of es]
    by (simp add: callback_main_state task_main_sent)
  have p: "prev_key (snd (uart_repeat_send_task_alt b)) = current_key b" for b
    by (simp add: task_alt_state)
  have k: "tick_counter (hid_host_keyboard_report_callback_alt r a) = tick_counter a"
    by (simp add: callback_alt_state)
  have l: "tick_counter (key_change_reset_alt (hid_host_keyboard_report_callback_alt r b)) = 0
      \<and> fst (uart_repeat_send_task_alt (hid_host_keyboard_report_callback_alt r b))
          = (if usb_keycode_to_ascii (r ! 2) (r ! 0) \<noteq> 0
             then Some (usb_keycode_to_ascii (r ! 2) (r ! 0)) else None)"
    if "3 \<le> length r" "r ! 2 \<noteq> 0" "r ! 2 \<noteq> prev_key b" for b
    using that by (simp add: callback_alt_state task_alt_sent reset_alt_counter)
  have l': "tick_counter (key_change_reset_alt
        (hid_host_keyboard_report_callback_alt r (snd (uart_repeat_send_task_alt a)))) = 0
      \<and> fst (uart_repeat_send_task_alt
        (hid_host_keyboard_report_callback_alt r (snd (uart_repeat_send_task_alt a))))
          = (if usb_keycode_to_ascii (r ! 2) (r ! 0) \<noteq> 0
             then Some (usb_keycode_to_ascii (r ! 2) (r ! 0)) else None)"
    if "3 \<le> length r" "r ! 2 \<noteq> 0" "r ! 2 \<noteq> current_key (snd (uart_repeat_send_task_alt a))"
  proof (rule l)
    show "3 \<le> length r" "r ! 2 \<noteq> 0" by (fact that)+
    have "current_key (snd (uart_repeat_send_task_alt a)) = current_key a"
      by (simp add: task_alt_state)
    with that(3) show "r ! 2 \<noteq> prev_key (snd (uart_repeat_send_task_alt a))"
      by (simp add: p)
  qed
  from m p [of a] k reset_alt_counter [of a] l [of a] l' scenario_change_main scenario_change_alt
  show ?thesis by blast
qed

theorem key_change_restarts_phase_witness:
  "3 \<le> length [0, 0, 0x05 :: uint8] \<and> [0, 0, 0x05 :: uint8] ! 2 \<noteq> 0
   \<and> current_key (exec_main init_main [Report [0, 0, 0x04], Tick, Tick]) = 0x04
   \<and> tick_counter (exec_main init_main [Report [0, 0, 0x04], Tick, Tick]) = 2
   \<and> tick_counter (hid_host_keyboard_report_callback_main [0, 0, 0x05]
        (exec_main init_main [Report [0, 0, 0x04], Tick, Tick])) = 0
   \<and> fst (uart_repeat_send_task_main (hid_host_keyboard_report_callback_main [0, 0, 0x05]
        (exec_main init_main [Report [0, 0, 0x04], Tick, Tick]))) = Some (byte_of CHR ''b'')
   \<and> fst (uart_repeat_send_task_alt (hid_host_keyboard_report_callback_alt [0, 0, 0x05]
        \<lparr>tick_counter = 2, current_key = 0x04, current_mod = 0, prev_key = 0x04\<rparr>))
       = Some (byte_of CHR ''b'')
   \<and> snd (uart_repeat_send_task_alt
        \<lparr>tick_counter = 2, current_key = 0x04, current_mod = 0, prev_key = 0x04\<rparr>)
       = \<lparr>tick_counter = 3, current_key = 0x04, current_mod = 0, prev_key = 0x04\<rparr>
   \<and> fst (uart_repeat_send_task_alt (hid_host_keyboard_report_callback_alt [0, 0, 0x05]
        (snd (uart_repeat_send_task_alt
          \<lparr>tick_counter = 2, current_key = 0x04, current_mod = 0, prev_key = 0x04\<rparr>))))
       = Some (byte_of CHR ''b'')"
proof -
  have s: "exec_main init_main [Report [0, 0, 0x04], Tick, Tick]
    = \<lparr>tick_counter = 2, current_key = 0x04, current_mod = 0, last_key = 0x04\<rparr>"
    by (simp add: init_main_def callback_main_state task_main_state TICK_COUNT_MAX_50
        word_le_nat_alt)
  have t: "snd (uart_repeat_send_task_alt
        \<lparr>tick_counter = 2, current_key = 0x04, current_mod = 0, prev_key = 0x04\<rparr>)
       = \<lparr>tick_counter = 3, current_key = 0x04, current_mod = 0, prev_key = 0x04\<rparr>"
    by (simp add: task_alt_state reset_alt_counter TICK_COUNT_MAX_50 word_le_nat_alt)
  from key_change_restarts_phase
    [where r = "[0, 0, 0x05]" and es = "[Report [0, 0, 0x04], Tick, Tick]"
       and a = "\<lparr>tick_counter = 2, current_key = 0x04, current_mod = 0, prev_key = 0x04\<rparr>"]
  show ?thesis
    unfolding s t by (simp add: letters_ab)
qed

text \<open>
  The claim as it was stated promises the reset for every change of the held key to a new
  value that is not 0. In the second variant, key 0x04 is held for three iterations, a
  report changes it to 0x05 and, before the next iteration, another report changes it
  back to 0x04. That last report changes the held key to a new value that is not 0; the
  counter stays 3 and the next iteration writes nothing.
\<close>

theorem changed_back_key_counterexample:
  "exec_alt init_alt
      [Report [0, 0, 0x04, 0, 0, 0, 0, 0], Tick, Tick, Tick, Report [0, 0, 0x05, 0, 0, 0, 0, 0]]
     = \<lparr>tick_counter = 3, current_key = 0x05, current_mod = 0, prev_key = 0x04\<rparr>
   \<and> 3 \<le> length [0, 0, 0x04, 0, 0, 0, 0, 0 :: uint8]
   \<and> [0, 0, 0x04, 0, 0, 0, 0, 0 :: uint8] ! 2 \<noteq> 0
   \<and> [0, 0, 0x04, 0, 0, 0, 0, 0 :: uint8] ! 2
       \<noteq> current_key \<lparr>tick_counter = 3, current_key = 0x05, current_mod = 0, prev_key = 0x04\<rparr>
   \<and> current_key (hid_host_keyboard_report_callback_alt [0, 0, 0x04, 0, 0, 0, 0, 0]
        \<lparr>tick_counter = 3, current_key = 0x05, current_mod = 0, prev_key = 0x04\<rparr>) = 0x04
   \<and> tick_counter (hid_host_keyboard_report_callback_alt [0, 0, 0x04, 0, 0, 0, 0, 0]
        \<lparr>tick_counter = 3, current_key = 0x05, current_mod = 0, prev_key = 0x04\<rparr>) = 3
   \<and> tick_counter (key_change_reset_alt
        (hid_host_keyboard_report_callback_alt [0, 0, 0x04, 0, 0, 0, 0, 0]
          \<lparr>tick_counter = 3, current_key = 0x05, current_mod = 0, prev_key = 0x04\<rparr>)) = 3
   \<and> usb_keycode_to_ascii 0x04 0 = byte_of CHR ''a'' \<and> byte_of CHR ''a'' \<noteq> 0
   \<and> fst (uart_repeat_send_task_alt
        (hid_host_keyboard_report_callback_alt [0, 0, 0x04, 0, 0, 0, 0, 0]
          \<lparr>tick_counter = 3, current_key = 0x05, current_mod = 0, prev_key = 0x04\<rparr>)) = None"
  by (simp add: init_alt_def callback_alt_state task_alt_state task_alt_sent reset_alt_counter
      TICK_COUNT_MAX_50 word_le_nat_alt letters_ab)

text \<open>
  C6. A report of fewer than 3 bytes leaves the whole state as it was, the held key and
  the modifiers among it, and the callback has no result through which an error could
  reach the caller. A report of at least 3 bytes sets the modifiers to byte 0 and the
  held key to byte 2; a report whose byte 2 is 0, the release of all keys, is written
  through in the same way.
\<close>

theorem report_write_through:
  "(length raw < 3 \<longrightarrow>
      hid_host_keyboard_report_callback_main raw s = s
      \<and> hid_host_keyboard_report_callback_alt raw a = a)
   \<and> (3 \<le> length raw \<longrightarrow>
      current_mod (hid_host_keyboard_report_callback_main raw s) = raw ! 0
      \<and> current_key (hid_host_keyboard_report_callback_main raw s) = raw ! 2
      \<and> current_mod (hid_host_keyboard_report_callback_alt raw a) = raw ! 0
      \<and> current_key (hid_host_keyboard_report_callback_alt raw a) = raw ! 2)
   \<and> current_key (hid_host_keyboard_report_callback_main (m # x # 0 # rest) s) = 0
   \<and> current_mod (hid_host_keyboard_report_callback_main (m # x # 0 # rest) s) = m
   \<and> current_key (hid_host_keyboard_report_callback_alt (m # x # 0 # rest) a) = 0
   \<and> current_mod (hid_host_keyboard_report_callback_alt (m # x # 0 # rest) a) = m"
  by (simp add: callback_main_state callback_alt_state)

theorem report_write_through_witness:
  "length [0x02, 0x00 :: uint8] < 3
   \<and> hid_host_keyboard_report_callback_main [0x02, 0x00]
        \<lparr>tick_counter = 7, current_key = 0x04, current_mod = 0x01, last_key = 0x04\<rparr>
       = \<lparr>tick_counter = 7, current_key = 0x04, current_mod = 0x01, last_key = 0x04\<rparr>
   \<and> hid_host_keyboard_report_callback_alt [0x02, 0x00]
        \<lparr>tick_counter = 7, current_key = 0x04, current_mod = 0x01, prev_key = 0x04\<rparr>
       = \<lparr>tick_counter = 7, current_key = 0x04, current_mod = 0x01, prev_key = 0x04\<rparr>
   \<and> 3 \<le> length [0x02, 0x00, 0x00 :: uint8]
   \<and> current_mod (hid_host_keyboard_report_callback_main [0x02, 0x00, 0x00]
        \<lparr>tick_counter = 7, current_key = 0x04, current_mod = 0x01, last_key = 0x04\<rparr>) = 0x02
   \<and> current_key (hid_host_keyboard_report_callback_main [0x02, 0x00, 0x00]
        \<lparr>tick_counter = 7, current_key = 0x04, current_mod = 0x01, last_key = 0x04\<rparr>) = 0
   \<and> current_mod (hid_host_keyboard_report_callback_alt [0x02, 0x00, 0x00]
        \<lparr>tick_counter = 7, current_key = 0x04, current_mod = 0x01, prev_key = 0x04\<rparr>) = 0x02
   \<and> current_key (hid_host_keyboard_report_callback_alt [0x02, 0x00, 0x00]
        \<lparr>tick_counter = 7, current_key = 0x04, current_mod = 0x01, prev_key = 0x04\<rparr>) = 0"
  using
    report_write_through [of "[0x02, 0x00]"
      "\<lparr>tick_counter = 7, current_key = 0x04, current_mod = 0x01, last_key = 0x04\<rparr>"
      "\<lparr>tick_counter = 7, current_key = 0x04, current_mod = 0x01, prev_key = 0x04\<rparr>"]
    report_write_through [of "[0x02, 0x00, 0x00]"
      "\<lparr>tick_counter = 7, current_key = 0x04, current_mod = 0x01, last_key = 0x04\<rparr>"
      "\<lparr>tick_counter = 7, current_key = 0x04, current_mod = 0x01, prev_key = 0x04\<rparr>"]
  by simp

text \<open>
  C7, as the source has it. \<open>TICK_COUNT_MAX\<close> is 500 / 10 = 50. From the initial state,
  where the counter is 0, the counter is below \<open>TICK_COUNT_MAX\<close> after every iteration of
  the task and after every report, in both variants. In \<^verbatim>\<open>keyboard_main.c\<close> the
  callback resets it to 0 exactly on a report that changes the held key, to or from 0
  included. In the second variant the callback leaves it alone and the task resets it at
  the head of an iteration exactly when the key it reads differs from \<open>prev_key\<close>, the
  key read by the iteration before; the iteration goes on from 0. In an iteration with a
  key held, and in the second variant equal to \<open>prev_key\<close>, the counter advances by one
  modulo \<open>TICK_COUNT_MAX\<close>. In an iteration with no key held it does not advance:
  \<^verbatim>\<open>keyboard_main.c\<close> leaves it as it is, which is 0 in every state a run reaches, and
  the second variant sets it to 0.
\<close>

theorem phase_counter_bounded:
  "TICK_COUNT_MAX = 50
   \<and> tick_counter init_main = 0 \<and> tick_counter init_alt = 0
   \<and> tick_counter (exec_main init_main es) < TICK_COUNT_MAX
   \<and> tick_counter (exec_alt init_alt es) < TICK_COUNT_MAX
   \<and> (3 \<le> length r \<and> r ! 2 \<noteq> current_key (exec_main init_main es) \<longrightarrow>
        tick_counter (hid_host_keyboard_report_callback_main r (exec_main init_main es)) = 0)
   \<and> (current_key a \<noteq> prev_key a \<longrightarrow>
        tick_counter (key_change_reset_alt a) = 0
        \<and> tick_counter (snd (uart_repeat_send_task_alt a)) = (if current_key a = 0 then 0 else 1))
   \<and> (current_key s \<noteq> 0 \<and> tick_counter s < TICK_COUNT_MAX \<longrightarrow>
        unat (tick_counter (snd (uart_repeat_send_task_main s)))
          = (unat (tick_counter s) + 1) mod unat TICK_COUNT_MAX)
   \<and> (current_key a \<noteq> 0 \<and> current_key a = prev_key a \<and> tick_counter a < TICK_COUNT_MAX \<longrightarrow>
        unat (tick_counter (snd (uart_repeat_send_task_alt a)))
          = (unat (tick_counter a) + 1) mod unat TICK_COUNT_MAX)
   \<and> (current_key s = 0 \<longrightarrow>
        tick_counter (snd (uart_repeat_send_task_main s)) = tick_counter s)
   \<and> (current_key (exec_main init_main es) = 0 \<longrightarrow> tick_counter (exec_main init_main es) = 0)
   \<and> (current_key a = 0 \<longrightarrow> tick_counter (snd (uart_repeat_send_task_alt a)) = 0)
   \<and> tick_counter (hid_host_keyboard_report_callback_main r (exec_main init_main es))
       = (if 3 \<le> length r \<and> r ! 2 \<noteq> current_key (exec_main init_main es) then 0
          else tick_counter (exec_main init_main es))
   \<and> tick_counter (hid_host_keyboard_report_callback_alt r a) = tick_counter a
   \<and> tick_counter (key_change_reset_alt a)
       = (if current_key a \<noteq> prev_key a then 0 else tick_counter a)
   \<and> prev_key (snd (uart_repeat_send_task_alt a)) = current_key a"
proof -
  have i: "tick_counter init_main = 0" "tick_counter init_alt = 0"
    by (simp_all add: init_main_def init_alt_def)
  have rm: "tick_counter (hid_host_keyboard_report_callback_main r (exec_main init_main es)) = 0"
    if "3 \<le> length r" "r ! 2 \<noteq> current_key (exec_main init_main es)"
    using that reach_main(1) [of es] by (simp add: callback_main_state)
  have ra: "tick_counter (key_change_reset_alt a) = 0
        \<and> tick_counter (snd (uart_repeat_send_task_alt a)) = (if current_key a = 0 then 0 else 1)"
    if "current_key a \<noteq> prev_key a"
    using that
    by (simp add: reset_alt_counter task_alt_state TICK_COUNT_MAX_50 word_le_nat_alt)
  have am: "unat (tick_counter (snd (uart_repeat_send_task_main s)))
          = (unat (tick_counter s) + 1) mod unat TICK_COUNT_MAX"
    if "current_key s \<noteq> 0" "tick_counter s < TICK_COUNT_MAX"
  proof -
    from that(1) have "tick_counter (snd (uart_repeat_send_task_main s))
      = (if TICK_COUNT_MAX \<le> tick_counter s + 1 then 0 else tick_counter s + 1)"
      by (simp add: task_main_state)
    then show ?thesis by (simp only: advance_mod(1) [OF that(2)])
  qed
  have aa: "unat (tick_counter (snd (uart_repeat_send_task_alt a)))
          = (unat (tick_counter a) + 1) mod unat TICK_COUNT_MAX"
    if "current_key a \<noteq> 0" "current_key a = prev_key a" "tick_counter a < TICK_COUNT_MAX"
  proof -
    from that(1,2) have "tick_counter (snd (uart_repeat_send_task_alt a))
      = (if TICK_COUNT_MAX \<le> tick_counter a + 1 then 0 else tick_counter a + 1)"
      by (simp add: task_alt_state reset_alt_counter)
    then show ?thesis by (simp only: advance_mod(1) [OF that(3)])
  qed
  have im: "tick_counter (snd (uart_repeat_send_task_main s)) = tick_counter s"
    if "current_key s = 0"
    using that by (simp add: task_main_state)
  have ia: "tick_counter (snd (uart_repeat_send_task_alt a)) = 0" if "current_key a = 0"
    using that by (simp add: task_alt_state)
  have xm: "tick_counter (hid_host_keyboard_report_callback_main r (exec_main init_main es))
       = (if 3 \<le> length r \<and> r ! 2 \<noteq> current_key (exec_main init_main es) then 0
          else tick_counter (exec_main init_main es))"
    using reach_main(1) [of es] by (simp add: callback_main_state)
  have xa: "tick_counter (hid_host_keyboard_report_callback_alt r a) = tick_counter a"
    by (simp add: callback_alt_state)
  have xp: "prev_key (snd (uart_repeat_send_task_alt a)) = current_key a"
    by (simp add: task_alt_state)
  from TICK_COUNT_MAX_50 i reach_main(2) [of es] reach_alt [of es] rm ra am aa im
    reach_main(3) [of es] ia xm xa reset_alt_counter [of a] xp
  show ?thesis by blast
qed

theorem phase_counter_bounded_witness:
  "3 \<le> length [0, 0, 0x05 :: uint8]
   \<and> [0, 0, 0x05 :: uint8] ! 2 \<noteq> current_key (exec_main init_main [Report [0, 0, 0x04], Tick, Tick])
   \<and> tick_counter (hid_host_keyboard_report_callback_main [0, 0, 0x05]
        (exec_main init_main [Report [0, 0, 0x04], Tick, Tick])) = 0
   \<and> current_key \<lparr>tick_counter = 49, current_key = 0x04, current_mod = 0, last_key = 0x04\<rparr> \<noteq> 0
   \<and> (49 :: uint32) < TICK_COUNT_MAX
   \<and> unat (tick_counter (snd (uart_repeat_send_task_main
        \<lparr>tick_counter = 49, current_key = 0x04, current_mod = 0, last_key = 0x04\<rparr>))) = 0
   \<and> unat (tick_counter (snd (uart_repeat_send_task_alt
        \<lparr>tick_counter = 49, current_key = 0x04, current_mod = 0, prev_key = 0x04\<rparr>))) = 0
   \<and> tick_counter (snd (uart_repeat_send_task_alt
        \<lparr>tick_counter = 49, current_key = 0x04, current_mod = 0, prev_key = 0x05\<rparr>)) = 1
   \<and> tick_counter (snd (uart_repeat_send_task_alt
        \<lparr>tick_counter = 49, current_key = 0, current_mod = 0, prev_key = 0x05\<rparr>)) = 0
   \<and> tick_counter (snd (uart_repeat_send_task_main
        \<lparr>tick_counter = 0, current_key = 0, current_mod = 0, last_key = 0\<rparr>)) = 0"
proof -
  let ?es = "[Report [0, 0, 0x04], Tick, Tick]"
  let ?s = "\<lparr>tick_counter = 49, current_key = 0x04, current_mod = 0, last_key = 0x04\<rparr>"
  let ?a = "\<lparr>tick_counter = 49, current_key = 0x04, current_mod = 0, prev_key = 0x04\<rparr>"
  let ?ca = "\<lparr>tick_counter = 49, current_key = 0x04, current_mod = 0, prev_key = 0x05\<rparr>"
  let ?ia = "\<lparr>tick_counter = 49, current_key = 0, current_mod = 0, prev_key = 0x05\<rparr>"
  let ?is = "\<lparr>tick_counter = 0, current_key = 0, current_mod = 0, last_key = 0\<rparr>"
  have e: "exec_main init_main ?es
    = \<lparr>tick_counter = 2, current_key = 0x04, current_mod = 0, last_key = 0x04\<rparr>"
    by (simp add: init_main_def callback_main_state task_main_state TICK_COUNT_MAX_50
        word_le_nat_alt)
  have h1: "3 \<le> length [0, 0, 0x05 :: uint8]
      \<and> [0, 0, 0x05 :: uint8] ! 2 \<noteq> current_key (exec_main init_main ?es)"
    unfolding e by simp
  have h2: "current_key ?s \<noteq> 0 \<and> tick_counter ?s < TICK_COUNT_MAX"
    by (simp add: TICK_COUNT_MAX_50)
  have h3: "current_key ?a \<noteq> 0 \<and> current_key ?a = prev_key ?a \<and> tick_counter ?a < TICK_COUNT_MAX"
    by (simp add: TICK_COUNT_MAX_50)
  have h4: "current_key ?ca \<noteq> prev_key ?ca" by simp
  have h5: "current_key ?ia = 0" "current_key ?is = 0" by simp_all
  note T = phase_counter_bounded [where es = ?es and r = "[0, 0, 0x05]" and s = ?s and a = ?a]
  note T' = phase_counter_bounded [where es = ?es and r = "[0, 0, 0x05]" and s = ?is and a = ?ca]
  note T0 = phase_counter_bounded [where es = ?es and r = "[0, 0, 0x05]" and s = ?is and a = ?ia]
  from T h1 have c1: "tick_counter (hid_host_keyboard_report_callback_main [0, 0, 0x05]
        (exec_main init_main ?es)) = 0"
    by blast
  from T h2 have "unat (tick_counter (snd (uart_repeat_send_task_main ?s)))
      = (unat (tick_counter ?s) + 1) mod unat TICK_COUNT_MAX"
    by blast
  then have c2: "unat (tick_counter (snd (uart_repeat_send_task_main ?s))) = 0"
    by (simp add: TICK_COUNT_MAX_50)
  from T h3 have "unat (tick_counter (snd (uart_repeat_send_task_alt ?a)))
      = (unat (tick_counter ?a) + 1) mod unat TICK_COUNT_MAX"
    by blast
  then have c3: "unat (tick_counter (snd (uart_repeat_send_task_alt ?a))) = 0"
    by (simp add: TICK_COUNT_MAX_50)
  from T' h4 have "tick_counter (snd (uart_repeat_send_task_alt ?ca))
      = (if current_key ?ca = 0 then 0 else 1)"
    by blast
  then have c4: "tick_counter (snd (uart_repeat_send_task_alt ?ca)) = 1"
    by simp
  from T0 h5 have c5: "tick_counter (snd (uart_repeat_send_task_alt ?ia)) = 0"
    by blast
  from T0 h5 have "tick_counter (snd (uart_repeat_send_task_main ?is)) = tick_counter ?is"
    by blast
  then have c6: "tick_counter (snd (uart_repeat_send_task_main ?is)) = 0"
    by simp
  from h1 h2 c1 c2 c3 c4 c5 c6 show ?thesis
    by (simp add: TICK_COUNT_MAX_50)
qed

text \<open>
  The claim as it was stated fails in two places. It lets the counter advance in every
  iteration in which the held key has not changed: in the initial state no key is held,
  the iteration does not change that, and the counter is 0 before and after, not 1. And
  it has the counter reset at every change of the held key: in the second variant, with
  key 0x04 held for three iterations, a release and a new press of 0x04 before the next
  iteration change the held key twice, and the counter goes from 3 to 4 without a reset.
\<close>

theorem phase_counter_counterexample:
  "current_key init_main = last_key init_main
   \<and> current_key (snd (uart_repeat_send_task_main init_main)) = current_key init_main
   \<and> unat (tick_counter (snd (uart_repeat_send_task_main init_main)))
       \<noteq> (unat (tick_counter init_main) + 1) mod unat TICK_COUNT_MAX
   \<and> current_key init_alt = prev_key init_alt
   \<and> current_key (snd (uart_repeat_send_task_alt init_alt)) = current_key init_alt
   \<and> unat (tick_counter (snd (uart_repeat_send_task_alt init_alt)))
       \<noteq> (unat (tick_counter init_alt) + 1) mod unat TICK_COUNT_MAX
   \<and> exec_alt init_alt [Report [0, 0, 0x04, 0, 0, 0, 0, 0], Tick, Tick, Tick]
       = \<lparr>tick_counter = 3, current_key = 0x04, current_mod = 0, prev_key = 0x04\<rparr>
   \<and> exec_alt init_alt [Report [0, 0, 0x04, 0, 0, 0, 0, 0], Tick, Tick, Tick,
        Report [0, 0, 0, 0, 0, 0, 0, 0]]
       = \<lparr>tick_counter = 3, current_key = 0, current_mod = 0, prev_key = 0x04\<rparr>
   \<and> exec_alt init_alt [Report [0, 0, 0x04, 0, 0, 0, 0, 0], Tick, Tick, Tick,
        Report [0, 0, 0, 0, 0, 0, 0, 0], Report [0, 0, 0x04, 0, 0, 0, 0, 0]]
       = \<lparr>tick_counter = 3, current_key = 0x04, current_mod = 0, prev_key = 0x04\<rparr>
   \<and> tick_counter (key_change_reset_alt
        \<lparr>tick_counter = 3, current_key = 0x04, current_mod = 0, prev_key = 0x04\<rparr>) = 3
   \<and> exec_alt init_alt [Report [0, 0, 0x04, 0, 0, 0, 0, 0], Tick, Tick, Tick,
        Report [0, 0, 0, 0, 0, 0, 0, 0], Report [0, 0, 0x04, 0, 0, 0, 0, 0], Tick]
       = \<lparr>tick_counter = 4, current_key = 0x04, current_mod = 0, prev_key = 0x04\<rparr>"
  by (simp add: init_main_def init_alt_def callback_alt_state task_main_state task_alt_state
      reset_alt_counter TICK_COUNT_MAX_50 word_le_nat_alt)

text \<open>
  C8, as the source has it. In the second variant the report callback neither reads nor
  writes the repeat counter, nor \<open>prev_key\<close>: it commutes with any assignment to the
  counter. Only the task touches the counter there. In \<^verbatim>\<open>keyboard_main.c\<close> the callback
  writes the counter: it sets it to 0 when the report has at least 3 bytes and its key
  differs from \<open>last_key\<close>, and leaves it as it is otherwise; it does not read it, the key
  state it leaves being the same whatever the counter was.
\<close>

theorem callback_counter_frame:
  "hid_host_keyboard_report_callback_alt r (a\<lparr>tick_counter := x\<rparr>)
     = (hid_host_keyboard_report_callback_alt r a)\<lparr>tick_counter := x\<rparr>
   \<and> tick_counter (hid_host_keyboard_report_callback_alt r a) = tick_counter a
   \<and> prev_key (hid_host_keyboard_report_callback_alt r a) = prev_key a
   \<and> tick_counter (hid_host_keyboard_report_callback_main r s)
       = (if 3 \<le> length r \<and> r ! 2 \<noteq> last_key s then 0 else tick_counter s)
   \<and> current_key (hid_host_keyboard_report_callback_main r (s\<lparr>tick_counter := x\<rparr>))
       = current_key (hid_host_keyboard_report_callback_main r s)
   \<and> current_mod (hid_host_keyboard_report_callback_main r (s\<lparr>tick_counter := x\<rparr>))
       = current_mod (hid_host_keyboard_report_callback_main r s)
   \<and> last_key (hid_host_keyboard_report_callback_main r (s\<lparr>tick_counter := x\<rparr>))
       = last_key (hid_host_keyboard_report_callback_main r s)"
  by (simp add: callback_main_state callback_alt_state)

theorem callback_counter_frame_witness:
  "tick_counter (hid_host_keyboard_report_callback_alt [0, 0, 0x05]
      \<lparr>tick_counter = 3, current_key = 0x04, current_mod = 0, prev_key = 0x04\<rparr>) = 3
   \<and> tick_counter (hid_host_keyboard_report_callback_main [0, 0, 0x05]
      \<lparr>tick_counter = 3, current_key = 0x04, current_mod = 0, last_key = 0x04\<rparr>) = 0
   \<and> tick_counter (hid_host_keyboard_report_callback_main [0x02, 0, 0x04]
      \<lparr>tick_counter = 3, current_key = 0x04, current_mod = 0, last_key = 0x04\<rparr>) = 3"
  using
    callback_counter_frame [where r = "[0, 0, 0x05]" and x = 0
      and a = "\<lparr>tick_counter = 3, current_key = 0x04, current_mod = 0, prev_key = 0x04\<rparr>"
      and s = "\<lparr>tick_counter = 3, current_key = 0x04, current_mod = 0, last_key = 0x04\<rparr>"]
    callback_counter_frame [where r = "[0x02, 0, 0x04]" and x = 0
      and a = "\<lparr>tick_counter = 3, current_key = 0x04, current_mod = 0, prev_key = 0x04\<rparr>"
      and s = "\<lparr>tick_counter = 3, current_key = 0x04, current_mod = 0, last_key = 0x04\<rparr>"]
  by simp

text \<open>
  The claim as it was stated has the callback never modify the counter. In
  \<^verbatim>\<open>keyboard_main.c\<close>, after key 0x04 has been held for three iterations the counter is
  3, and a report of key 0x05 sets it to 0.
\<close>

theorem callback_writes_counter_counterexample:
  "tick_counter (exec_main init_main [Report [0, 0, 0x04, 0, 0, 0, 0, 0], Tick, Tick, Tick]) = 3
   \<and> tick_counter (hid_host_keyboard_report_callback_main [0, 0, 0x05, 0, 0, 0, 0, 0]
        (exec_main init_main [Report [0, 0, 0x04, 0, 0, 0, 0, 0], Tick, Tick, Tick])) = 0
   \<and> tick_counter (hid_host_keyboard_report_callback_main [0, 0, 0x05, 0, 0, 0, 0, 0]
        (exec_main init_main [Report [0, 0, 0x04, 0, 0, 0, 0, 0], Tick, Tick, Tick]))
       \<noteq> tick_counter (exec_main init_main [Report [0, 0, 0x04, 0, 0, 0, 0, 0], Tick, Tick, Tick])"
proof -
  have s: "exec_main init_main [Report [0, 0, 0x04, 0, 0, 0, 0, 0], Tick, Tick, Tick]
    = \<lparr>tick_counter = 3, current_key = 0x04, current_mod = 0, last_key = 0x04\<rparr>"
    by (simp add: init_main_def callback_main_state task_main_state TICK_COUNT_MAX_50
        word_le_nat_alt)
  show ?thesis
    unfolding s by (simp add: callback_main_state)
qed




text \<open>
  C10. The two variants write the same bytes in the same iterations, in every run from
  the initial state in which each report and each iteration is applied as a whole and the
  held key changes value at most once between two consecutive iterations of the task.
\<close>

theorem variants_agree:
  assumes "one_change_per_tick 0 False es"
  shows "sent_main init_main es = sent_alt init_alt es"
  using assms
  by (intro simulation [where changed = False]) (simp_all add: init_main_def init_alt_def)

theorem variants_agree_witness:
  "one_change_per_tick 0 False
     [Report [0, 0, 0x04, 0, 0, 0, 0, 0], Tick, Tick, Report [0x02, 0, 0x05, 0, 0, 0, 0, 0], Tick,
      Report [0, 0, 0, 0, 0, 0, 0, 0], Tick, Report [0x01, 0], Tick]
   \<and> sent_main init_main
     [Report [0, 0, 0x04, 0, 0, 0, 0, 0], Tick, Tick, Report [0x02, 0, 0x05, 0, 0, 0, 0, 0], Tick,
      Report [0, 0, 0, 0, 0, 0, 0, 0], Tick, Report [0x01, 0], Tick]
     = [Some (byte_of CHR ''a''), None, Some (byte_of CHR ''B''), None, None]
   \<and> sent_alt init_alt
     [Report [0, 0, 0x04, 0, 0, 0, 0, 0], Tick, Tick, Report [0x02, 0, 0x05, 0, 0, 0, 0, 0], Tick,
      Report [0, 0, 0, 0, 0, 0, 0, 0], Tick, Report [0x01, 0], Tick]
     = [Some (byte_of CHR ''a''), None, Some (byte_of CHR ''B''), None, None]"
proof -
  let ?es = "[Report [0, 0, 0x04, 0, 0, 0, 0, 0], Tick, Tick,
      Report [0x02, 0, 0x05, 0, 0, 0, 0, 0], Tick,
      Report [0, 0, 0, 0, 0, 0, 0, 0], Tick, Report [0x01, 0], Tick]"
  have h: "one_change_per_tick 0 False ?es" by simp
  have B: "usb_keycode_to_ascii 0x05 0x02 = byte_of CHR ''B''" "byte_of CHR ''B'' \<noteq> 0"
    using shift_letter [of "0x05" "0x02"] by (simp_all add: flags_concrete byte_of_def)
  have m: "sent_main init_main ?es
    = [Some (byte_of CHR ''a''), None, Some (byte_of CHR ''B''), None, None]"
    by (simp add: init_main_def callback_main_state task_main_state task_main_sent
        TICK_COUNT_MAX_50 word_le_nat_alt letters_ab B)
  from variants_agree [OF h] m h show ?thesis by simp
qed

end
